theory Spec2Isabelle
  imports Complex_Main "HOL-Library.Sublist" "HOL-Library.Product_Lexorder" "HOL-Library.Multiset"
begin

section \<open>Python strings\<close>

text \<open>
  A Python \<^verbatim>\<open>str\<close> is a sequence of Unicode code points, so a string is a list of
  natural numbers; \<^verbatim>\<open>len\<close>, slicing and \<^verbatim>\<open>find\<close> count code points.
  \<^verbatim>\<open>sub in s\<close> on strings is the contiguous-substring test \<^const>\<open>sublist\<close>.
\<close>

type_synonym ustr = "nat list"

text \<open>The code points for which \<^verbatim>\<open>str.isspace\<close> holds: what \<^verbatim>\<open>strip()\<close> and
  \<^verbatim>\<open>split()\<close> without argument remove.\<close>

definition isspace :: "nat \<Rightarrow> bool" where
  "isspace c \<longleftrightarrow>
     (9 \<le> c \<and> c \<le> 13) \<or> (28 \<le> c \<and> c \<le> 32) \<or> c = 133 \<or> c = 160 \<or> c = 5760 \<or>
     (8192 \<le> c \<and> c \<le> 8202) \<or> c = 8232 \<or> c = 8233 \<or> c = 8239 \<or> c = 8287 \<or> c = 12288"

definition lstrip :: "ustr \<Rightarrow> ustr" where
  "lstrip s = dropWhile isspace s"

definition rstrip :: "ustr \<Rightarrow> ustr" where
  "rstrip s = rev (dropWhile isspace (rev s))"

definition strip :: "ustr \<Rightarrow> ustr" where
  "strip s = rstrip (lstrip s)"

text \<open>\<^verbatim>\<open>s.find(sub)\<close>: the lowest index at which \<^verbatim>\<open>sub\<close> starts in \<^verbatim>\<open>s\<close>, or -1.\<close>

fun find_str :: "ustr \<Rightarrow> ustr \<Rightarrow> int" where
  "find_str [] sub = (if sub = [] then 0 else -1)"
| "find_str (c # s) sub =
     (if prefix sub (c # s) then 0
      else (let r = find_str s sub in if r = -1 then -1 else r + 1))"

text \<open>\<^verbatim>\<open>s.split()\<close>: the maximal runs of non-whitespace.\<close>

function split_ws :: "ustr \<Rightarrow> ustr list" where
  "split_ws s =
     (case dropWhile isspace s of
        [] \<Rightarrow> []
      | c # t \<Rightarrow> takeWhile (\<lambda>x. \<not> isspace x) (c # t) # split_ws (dropWhile (\<lambda>x. \<not> isspace x) (c # t)))"
  by pat_completeness auto
termination
proof (relation "measure length", goal_cases)
  case 1
  show ?case by simp
next
  case (2 s c t)
  have c: "\<not> isspace c"
    using 2 by (metis hd_dropWhile list.distinct(1) list.sel(1))
  have "length (dropWhile (\<lambda>x. \<not> isspace x) t) \<le> length t"
    by (rule length_dropWhile_le)
  moreover have "length (c # t) \<le> length s"
    using length_dropWhile_le [of isspace s] by (simp only: 2)
  ultimately show ?case using c by simp
qed

text \<open>\<^verbatim>\<open>s.split(",")\<close>: the pieces between separators; never an empty list.\<close>

fun split_on :: "nat \<Rightarrow> ustr \<Rightarrow> ustr list" where
  "split_on sep [] = [[]]"
| "split_on sep (c # s) =
     (if c = sep then [] # split_on sep s
      else (case split_on sep s of [] \<Rightarrow> [[c]] | w # ws \<Rightarrow> (c # w) # ws))"

text \<open>\<^verbatim>\<open>sep.join(parts)\<close>.\<close>

fun join :: "ustr \<Rightarrow> ustr list \<Rightarrow> ustr" where
  "join sep [] = []"
| "join sep [w] = w"
| "join sep (w # v # ws) = w @ sep @ join sep (v # ws)"

text \<open>Slicing \<^verbatim>\<open>s[lo:hi]\<close> with Python's treatment of negative and too large bounds.\<close>

definition slice_index :: "nat \<Rightarrow> int \<Rightarrow> nat" where
  "slice_index n i = (if i < 0 then nat (max 0 (int n + i)) else min n (nat i))"

definition slice :: "'a list \<Rightarrow> int \<Rightarrow> int \<Rightarrow> 'a list" where
  "slice s lo hi =
     (let l = slice_index (length s) lo; h = slice_index (length s) hi
      in take (h - l) (drop l s))"

definition ellipsis :: ustr where
  "ellipsis = [46, 46, 46]"

text \<open>
  \<^verbatim>\<open>str.lower()\<close> follows the Unicode case tables of the running interpreter and may
  change the length of a string. It is a parameter \<open>lower\<close> of every function that
  calls it; nothing is assumed about it. \<open>ascii_lower\<close> is what it does on strings of
  code points below 128, and is used to evaluate the functions on such strings.
\<close>

definition ascii_lower :: "ustr \<Rightarrow> ustr" where
  "ascii_lower s = map (\<lambda>c. if 65 \<le> c \<and> c \<le> 90 then c + 32 else c) s"

section \<open>Python floats\<close>

text \<open>
  A Python \<^verbatim>\<open>float\<close> is an IEEE 754 binary64 number. The floats of this program are
  finite: a float is represented by the rational number it denotes, and an arithmetic
  operation is the exact operation followed by rounding to the nearest binary64 number,
  ties going to the even significand. Two floats are equal, or ordered, as their values
  are.

  \<open>bit_length n\<close> is \<^verbatim>\<open>n.bit_length()\<close>, the number of binary digits of \<open>n\<close>;
  \<open>pow2 e\<close> is \<open>2\<close> to the power \<open>e\<close>; \<open>binade x\<close>, for \<open>x > 0\<close>, is the exponent
  \<open>e\<close> with \<open>pow2 e \<le> x < pow2 (e + 1)\<close>.
\<close>

type_synonym pyfloat = rat

function bit_length :: "nat \<Rightarrow> nat" where
  "bit_length n = (if n = 0 then 0 else bit_length (n div 2) + 1)"
  by pat_completeness auto
termination
  by (relation "measure id") auto

declare bit_length.simps [simp del]

definition pow2 :: "int \<Rightarrow> rat" where
  "pow2 e = (if 0 \<le> e then 2 ^ nat e else 1 / 2 ^ nat (- e))"

definition binade :: "rat \<Rightarrow> int" where
  "binade x =
     (if 1 \<le> x then int (bit_length (nat \<lfloor>x\<rfloor>)) - 1
      else - int (bit_length (nat (\<lceil>1 / x\<rceil> - 1))))"

text \<open>Rounding to the nearest integer, a tie going to the even one.\<close>

definition round_half_even :: "rat \<Rightarrow> int" where
  "round_half_even x =
     (let n = \<lfloor>x\<rfloor>
      in if x - of_int n < 1 / 2 \<or> (x - of_int n = 1 / 2 \<and> even n) then n else n + 1)"

text \<open>
  \<open>double x\<close> is the binary64 number nearest to \<open>x\<close>: a significand of 53 binary
  digits, so a unit in the last place of \<open>pow2 (e - 52)\<close> in the binade \<open>e\<close> of \<open>x\<close>,
  and of \<open>pow2 (- 1074)\<close> below \<open>pow2 (- 1022)\<close>. A result of \<open>pow2 1024\<close> or more
  would be an infinity; the numbers rounded here are lengths of strings, quotients of
  such lengths and scores, far below it.
\<close>

definition double :: "rat \<Rightarrow> pyfloat" where
  "double x =
     (if x = 0 then 0
      else (let e = max (binade \<bar>x\<bar>) (- 1022)
            in sgn x * of_int (round_half_even (\<bar>x\<bar> / pow2 (e - 52))) * pow2 (e - 52)))"

text \<open>The conversion of an \<^verbatim>\<open>int\<close> operand and the three operations the program uses.\<close>

definition float_of_int :: "int \<Rightarrow> pyfloat" where
  "float_of_int n = double (of_int n)"

definition fadd :: "pyfloat \<Rightarrow> pyfloat \<Rightarrow> pyfloat" where
  "fadd x y = double (x + y)"

definition fmul :: "pyfloat \<Rightarrow> pyfloat \<Rightarrow> pyfloat" where
  "fmul x y = double (x * y)"

definition fdiv :: "pyfloat \<Rightarrow> pyfloat \<Rightarrow> pyfloat" where
  "fdiv x y = double (x / y)"

section \<open>difflib.SequenceMatcher\<close>

text \<open>
  \<^verbatim>\<open>SequenceMatcher(None, a, b).ratio()\<close> of the Python standard library, as the score
  calls it: no junk predicate, \<^verbatim>\<open>autojunk\<close> left at its default \<^verbatim>\<open>True\<close>.

  \<^verbatim>\<open>__chain_b\<close>: \<^verbatim>\<open>b2j\<close> maps an element of \<^verbatim>\<open>b\<close> to the increasing list of its
  indices; when \<^verbatim>\<open>b\<close> has at least 200 elements, an element occurring more than
  \<^verbatim>\<open>len(b) // 100 + 1\<close> times is "popular" and is deleted from the dictionary.
  \<open>b2j b elt\<close> is \<^verbatim>\<open>b2j.get(elt, [])\<close>.
\<close>

definition b2j :: "ustr \<Rightarrow> nat \<Rightarrow> nat list" where
  "b2j b elt =
     (let idxs = filter (\<lambda>j. b ! j = elt) [0..<length b]
      in if length b \<ge> 200 \<and> length idxs > length b div 100 + 1 then [] else idxs)"

text \<open>\<^verbatim>\<open>bjunk\<close> is the empty set, because \<^verbatim>\<open>isjunk\<close> is \<^verbatim>\<open>None\<close>.\<close>

definition isbjunk :: "nat \<Rightarrow> bool" where
  "isbjunk elt = False"

text \<open>
  The inner loop of \<^verbatim>\<open>find_longest_match\<close> over the indices \<open>j\<close> of \<^verbatim>\<open>a[i]\<close> in
  \<^verbatim>\<open>b\<close>: \<^verbatim>\<open>continue\<close> below \<open>blo\<close>, \<^verbatim>\<open>break\<close> from \<open>bhi\<close> on. The state is
  \<^verbatim>\<open>(newj2len, besti, bestj, bestsize)\<close>; \<^verbatim>\<open>j2len.get(j-1, 0)\<close> is 0 for \<open>j = 0\<close>, the
  key -1 being never stored.
\<close>

fun inner_loop ::
  "(nat \<rightharpoonup> nat) \<Rightarrow> nat \<Rightarrow> nat \<Rightarrow> nat \<Rightarrow> nat list \<Rightarrow>
   (nat \<rightharpoonup> nat) \<times> nat \<times> nat \<times> nat \<Rightarrow> (nat \<rightharpoonup> nat) \<times> nat \<times> nat \<times> nat" where
  "inner_loop j2len i blo bhi [] st = st"
| "inner_loop j2len i blo bhi (j # js) (newj2len, besti, bestj, bestsize) =
     (if j < blo then inner_loop j2len i blo bhi js (newj2len, besti, bestj, bestsize)
      else if j \<ge> bhi then (newj2len, besti, bestj, bestsize)
      else
        (let k = (if j = 0 then 0 else (case j2len (j - 1) of None \<Rightarrow> 0 | Some v \<Rightarrow> v)) + 1
         in if k > bestsize
            then inner_loop j2len i blo bhi js (newj2len(j \<mapsto> k), i + 1 - k, j + 1 - k, k)
            else inner_loop j2len i blo bhi js (newj2len(j \<mapsto> k), besti, bestj, bestsize)))"

text \<open>The outer loop \<^verbatim>\<open>for i in range(alo, ahi)\<close>, over the list of these \<open>i\<close>.\<close>

fun outer_loop ::
  "ustr \<Rightarrow> ustr \<Rightarrow> nat \<Rightarrow> nat \<Rightarrow> nat list \<Rightarrow>
   (nat \<rightharpoonup> nat) \<times> nat \<times> nat \<times> nat \<Rightarrow> nat \<times> nat \<times> nat" where
  "outer_loop a b blo bhi [] (j2len, best) = best"
| "outer_loop a b blo bhi (i # is) (j2len, best) =
     outer_loop a b blo bhi is (inner_loop j2len i blo bhi (b2j b (a ! i)) (Map.empty, best))"

text \<open>
  The four \<^verbatim>\<open>while\<close> loops that extend the best match to the left and to the right,
  first over elements that are not junk (\<open>junk = False\<close>), then over junk.
\<close>

function extend_left ::
  "ustr \<Rightarrow> ustr \<Rightarrow> nat \<Rightarrow> nat \<Rightarrow> bool \<Rightarrow> nat \<times> nat \<times> nat \<Rightarrow> nat \<times> nat \<times> nat" where
  "extend_left a b alo blo junk (besti, bestj, bestsize) =
     (if besti > alo \<and> bestj > blo \<and> isbjunk (b ! (bestj - 1)) = junk \<and>
         a ! (besti - 1) = b ! (bestj - 1)
      then extend_left a b alo blo junk (besti - 1, bestj - 1, bestsize + 1)
      else (besti, bestj, bestsize))"
  by pat_completeness auto
termination
  by (relation "measure (\<lambda>(a, b, alo, blo, junk, besti, bestj, bestsize). besti)") auto

function extend_right ::
  "ustr \<Rightarrow> ustr \<Rightarrow> nat \<Rightarrow> nat \<Rightarrow> bool \<Rightarrow> nat \<times> nat \<times> nat \<Rightarrow> nat \<times> nat \<times> nat" where
  "extend_right a b ahi bhi junk (besti, bestj, bestsize) =
     (if besti + bestsize < ahi \<and> bestj + bestsize < bhi \<and>
         isbjunk (b ! (bestj + bestsize)) = junk \<and>
         a ! (besti + bestsize) = b ! (bestj + bestsize)
      then extend_right a b ahi bhi junk (besti, bestj, bestsize + 1)
      else (besti, bestj, bestsize))"
  by pat_completeness auto
termination
  by (relation "measure (\<lambda>(a, b, ahi, bhi, junk, besti, bestj, bestsize). ahi - (besti + bestsize))")
     auto

definition find_longest_match ::
  "ustr \<Rightarrow> ustr \<Rightarrow> nat \<Rightarrow> nat \<Rightarrow> nat \<Rightarrow> nat \<Rightarrow> nat \<times> nat \<times> nat" where
  "find_longest_match a b alo ahi blo bhi =
     extend_right a b ahi bhi True
       (extend_left a b alo blo True
         (extend_right a b ahi bhi False
           (extend_left a b alo blo False
             (outer_loop a b blo bhi [alo..<ahi] (Map.empty, alo, blo, 0)))))"

declare extend_left.simps [simp del]
declare extend_right.simps [simp del]

subsection \<open>The match stays inside the window\<close>

text \<open>
  Invariants of \<^verbatim>\<open>find_longest_match\<close>. Every length stored in \<^verbatim>\<open>j2len\<close> for the row
  before \<open>i\<close> is at most \<open>i - alo\<close> and at most \<open>j + 1 - blo\<close>, so the subtractions
  \<^verbatim>\<open>i-k+1\<close> and \<^verbatim>\<open>j-k+1\<close> never go below \<open>alo\<close> and \<open>blo\<close>; the best match lies in
  the window, and is the initial \<open>(alo, blo, 0)\<close> as long as its size is 0.
\<close>

definition j2len_ok :: "nat \<Rightarrow> nat \<Rightarrow> nat \<Rightarrow> (nat \<rightharpoonup> nat) \<Rightarrow> bool" where
  "j2len_ok alo blo i m \<longleftrightarrow> (\<forall>j v. m j = Some v \<longrightarrow> v \<le> i - alo \<and> v \<le> j + 1 - blo \<and> blo \<le> j)"

definition best_ok :: "nat \<Rightarrow> nat \<Rightarrow> nat \<Rightarrow> nat \<Rightarrow> nat \<times> nat \<times> nat \<Rightarrow> bool" where
  "best_ok alo ahi blo bhi best =
     (case best of (besti, bestj, bestsize) \<Rightarrow>
        alo \<le> besti \<and> blo \<le> bestj \<and>
        (if bestsize = 0 then besti = alo \<and> bestj = blo
         else besti + bestsize \<le> ahi \<and> bestj + bestsize \<le> bhi))"

lemma inner_loop_ok:
  assumes "alo \<le> i" "i < ahi" "j2len_ok alo blo i j2len"
  shows "j2len_ok alo blo (Suc i) new \<Longrightarrow> best_ok alo ahi blo bhi best \<Longrightarrow>
         inner_loop j2len i blo bhi js (new, best) = (new', best') \<Longrightarrow>
         j2len_ok alo blo (Suc i) new' \<and> best_ok alo ahi blo bhi best'"
proof (induction js arbitrary: new best)
  case Nil
  then show ?case by simp
next
  case (Cons j js)
  obtain besti bestj bestsize where best: "best = (besti, bestj, bestsize)"
    by (cases best) auto
  show ?case
  proof (cases "j < blo")
    case True
    with Cons best show ?thesis by simp
  next
    case lo: False
    show ?thesis
    proof (cases "j \<ge> bhi")
      case True
      with Cons lo best show ?thesis by simp
    next
      case hi: False
      define k where "k = (if j = 0 then 0 else (case j2len (j - 1) of None \<Rightarrow> 0 | Some v \<Rightarrow> v)) + 1"
      have k1: "k \<le> Suc i - alo" and k2: "k \<le> j + 1 - blo" and k0: "0 < k"
        using assms lo unfolding k_def j2len_ok_def
        by (auto split: option.splits) (fastforce+)
      have new_ok: "j2len_ok alo blo (Suc i) (new(j \<mapsto> k))"
        using Cons.prems(1) k1 k2 lo unfolding j2len_ok_def by auto
      show ?thesis
      proof (cases "k > bestsize")
        case True
        have "best_ok alo ahi blo bhi (i + 1 - k, j + 1 - k, k)"
          using k1 k2 k0 assms hi lo unfolding best_ok_def by auto
        moreover have "inner_loop j2len i blo bhi js (new(j \<mapsto> k), i + 1 - k, j + 1 - k, k) = (new', best')"
          using Cons.prems(3) lo hi True best by (simp add: k_def Let_def)
        ultimately show ?thesis using Cons.IH new_ok by blast
      next
        case False
        have "inner_loop j2len i blo bhi js (new(j \<mapsto> k), best) = (new', best')"
          using Cons.prems(3) lo hi False best by (simp add: k_def Let_def)
        then show ?thesis using Cons.IH new_ok Cons.prems(2) by blast
      qed
    qed
  qed
qed

lemma outer_loop_ok:
  "alo \<le> m \<Longrightarrow> j2len_ok alo blo m j2len \<Longrightarrow> best_ok alo ahi blo bhi best \<Longrightarrow>
   best_ok alo ahi blo bhi (outer_loop a b blo bhi [m..<ahi] (j2len, best))"
proof (induction "ahi - m" arbitrary: m j2len best)
  case 0
  then show ?case by simp
next
  case (Suc n)
  then have m: "m < ahi" and up: "[m..<ahi] = m # [Suc m..<ahi]"
    by (auto simp: upt_conv_Cons)
  obtain new' best' where
    il: "inner_loop j2len m blo bhi (b2j b (a ! m)) (Map.empty, best) = (new', best')"
    by (cases "inner_loop j2len m blo bhi (b2j b (a ! m)) (Map.empty, best)") auto
  have "j2len_ok alo blo (Suc m) Map.empty"
    by (simp add: j2len_ok_def)
  then have ok: "j2len_ok alo blo (Suc m) new' \<and> best_ok alo ahi blo bhi best'"
    using inner_loop_ok [OF Suc.prems(1) m Suc.prems(2) _ Suc.prems(3) il] by blast
  have "best_ok alo ahi blo bhi (outer_loop a b blo bhi [Suc m..<ahi] (new', best'))"
    using Suc.hyps(1) [of "Suc m" new' best'] Suc.hyps(2) Suc.prems(1) ok by simp
  then show ?case by (simp add: up il)
qed

lemma extend_left_ok:
  "best_ok alo ahi blo bhi best \<Longrightarrow> best_ok alo ahi blo bhi (extend_left a b alo blo junk best)"
proof (induction a b alo blo junk best rule: extend_left.induct)
  case (1 a b alo blo junk besti bestj bestsize)
  show ?case
  proof (cases "besti > alo \<and> bestj > blo \<and> isbjunk (b ! (bestj - 1)) = junk \<and>
                a ! (besti - 1) = b ! (bestj - 1)")
    case True
    have "best_ok alo ahi blo bhi (besti - 1, bestj - 1, bestsize + 1)"
      using "1.prems" True unfolding best_ok_def by (auto split: if_splits)
    then show ?thesis
      using "1.IH" True by (subst extend_left.simps) simp
  next
    case False
    then show ?thesis using "1.prems" by (subst extend_left.simps) auto
  qed
qed

lemma extend_right_ok:
  "best_ok alo ahi blo bhi best \<Longrightarrow> best_ok alo ahi blo bhi (extend_right a b ahi bhi junk best)"
proof (induction a b ahi bhi junk best rule: extend_right.induct)
  case (1 a b ahi bhi junk besti bestj bestsize)
  show ?case
  proof (cases "besti + bestsize < ahi \<and> bestj + bestsize < bhi \<and>
                isbjunk (b ! (bestj + bestsize)) = junk \<and>
                a ! (besti + bestsize) = b ! (bestj + bestsize)")
    case True
    have "best_ok alo ahi blo bhi (besti, bestj, bestsize + 1)"
      using "1.prems" True unfolding best_ok_def by (auto split: if_splits)
    then show ?thesis
      using "1.IH" True by (subst extend_right.simps) simp
  next
    case False
    then show ?thesis using "1.prems" by (subst extend_right.simps) auto
  qed
qed

lemma find_longest_match_ok:
  "best_ok alo ahi blo bhi (find_longest_match a b alo ahi blo bhi)"
proof -
  have "best_ok alo ahi blo bhi (alo, blo, 0)"
    by (simp add: best_ok_def)
  moreover have "j2len_ok alo blo alo Map.empty"
    by (simp add: j2len_ok_def)
  ultimately have "best_ok alo ahi blo bhi (outer_loop a b blo bhi [alo..<ahi] (Map.empty, alo, blo, 0))"
    using outer_loop_ok [of alo alo blo Map.empty ahi bhi "(alo, blo, 0)" a b] by simp
  then show ?thesis
    unfolding find_longest_match_def
    by (intro extend_right_ok extend_left_ok)
qed

lemma find_longest_match_bounds:
  assumes "find_longest_match a b alo ahi blo bhi = (i, j, k)" "k \<noteq> 0"
  shows "alo \<le> i" "blo \<le> j" "i + k \<le> ahi" "j + k \<le> bhi"
  using find_longest_match_ok [of alo ahi blo bhi a b] assms
  by (simp_all add: best_ok_def)

subsection \<open>Matching blocks and the ratio\<close>

text \<open>
  \<^verbatim>\<open>get_matching_blocks\<close>: a work list of windows \<open>(alo, ahi, blo, bhi)\<close>, popped from
  its end; a match of size \<open>k > 0\<close> is recorded and the windows to its left and to its
  right are pushed when both their sides are non-empty.
\<close>

definition queue_size :: "(nat \<times> nat \<times> nat \<times> nat) list \<Rightarrow> nat" where
  "queue_size queue = sum_list (map (\<lambda>(alo, ahi, blo, bhi). 2 * (ahi - alo) + 1) queue)"

lemma queue_size_pop:
  "queue \<noteq> [] \<Longrightarrow> last queue = (alo, ahi, blo, bhi) \<Longrightarrow>
   queue_size queue = queue_size (butlast queue) + (2 * (ahi - alo) + 1)"
proof -
  assume "queue \<noteq> []" "last queue = (alo, ahi, blo, bhi)"
  then have "queue = butlast queue @ [(alo, ahi, blo, bhi)]"
    by (metis append_butlast_last_id)
  then have "queue_size queue = queue_size (butlast queue @ [(alo, ahi, blo, bhi)])"
    by simp
  then show ?thesis by (simp add: queue_size_def)
qed

lemma queue_size_append: "queue_size (xs @ ys) = queue_size xs + queue_size ys"
  by (simp add: queue_size_def)

function matching_loop ::
  "ustr \<Rightarrow> ustr \<Rightarrow> (nat \<times> nat \<times> nat \<times> nat) list \<Rightarrow> (nat \<times> nat \<times> nat) list \<Rightarrow>
   (nat \<times> nat \<times> nat) list" where
  "matching_loop a b queue matching_blocks =
     (if queue = [] then matching_blocks
      else
        (case last queue of (alo, ahi, blo, bhi) \<Rightarrow>
          (case find_longest_match a b alo ahi blo bhi of (i, j, k) \<Rightarrow>
             if k \<noteq> 0
             then matching_loop a b
                    (butlast queue
                       @ (if alo < i \<and> blo < j then [(alo, i, blo, j)] else [])
                       @ (if i + k < ahi \<and> j + k < bhi then [(i + k, ahi, j + k, bhi)] else []))
                    (matching_blocks @ [(i, j, k)])
             else matching_loop a b (butlast queue) matching_blocks)))"
  by pat_completeness auto
termination
proof (relation "measure (\<lambda>(a, b, queue, matching_blocks). queue_size queue)", goal_cases)
  case 1
  show ?case by simp
next
  case (2 a b queue matching_blocks alo y ahi ya blo bhi i yc j k)
  then have flm: "find_longest_match a b alo ahi blo bhi = (i, j, k)"
    and lq: "last queue = (alo, ahi, blo, bhi)" and k: "k \<noteq> 0" and ne: "queue \<noteq> []"
    by simp_all
  note bnd = find_longest_match_bounds [OF flm k]
  have "queue_size ((if alo < i \<and> blo < j then [(alo, i, blo, j)] else [])
                    @ (if i + k < ahi \<and> j + k < bhi then [(i + k, ahi, j + k, bhi)] else []))
        < 2 * (ahi - alo) + 1"
    using bnd k by (auto simp: queue_size_def)
  then show ?case
    using queue_size_pop [OF ne lq] by (simp add: queue_size_append)
next
  case (3 a b queue matching_blocks alo y ahi ya blo bhi i yc j k)
  then have lq: "last queue = (alo, ahi, blo, bhi)" and ne: "queue \<noteq> []"
    by simp_all
  show ?case
    using queue_size_pop [OF ne lq] by simp
qed

declare matching_loop.simps [simp del]

text \<open>
  The blocks are sorted (tuples compare lexicographically) and adjacent blocks are
  merged: the loop over the sorted blocks carries \<open>(i1, j1, k1)\<close> and the list
  \<^verbatim>\<open>non_adjacent\<close>. The sentinel \<open>(la, lb, 0)\<close> ends the result.
\<close>

fun collapse ::
  "(nat \<times> nat \<times> nat) list \<Rightarrow> nat \<times> nat \<times> nat \<Rightarrow> (nat \<times> nat \<times> nat) list \<Rightarrow>
   (nat \<times> nat \<times> nat) list \<times> (nat \<times> nat \<times> nat)" where
  "collapse [] (i1, j1, k1) non_adjacent = (non_adjacent, (i1, j1, k1))"
| "collapse ((i2, j2, k2) # rest) (i1, j1, k1) non_adjacent =
     (if i1 + k1 = i2 \<and> j1 + k1 = j2
      then collapse rest (i1, j1, k1 + k2) non_adjacent
      else collapse rest (i2, j2, k2)
             (if k1 \<noteq> 0 then non_adjacent @ [(i1, j1, k1)] else non_adjacent))"

definition get_matching_blocks :: "ustr \<Rightarrow> ustr \<Rightarrow> (nat \<times> nat \<times> nat) list" where
  "get_matching_blocks a b =
     (let la = length a; lb = length b;
          matching_blocks = sort (matching_loop a b [(0, la, 0, lb)] [])
      in (case collapse matching_blocks (0, 0, 0) [] of (non_adjacent, (i1, j1, k1)) \<Rightarrow>
            (if k1 \<noteq> 0 then non_adjacent @ [(i1, j1, k1)] else non_adjacent) @ [(la, lb, 0)]))"

text \<open>
  \<^verbatim>\<open>_calculate_ratio\<close>: \<^verbatim>\<open>2.0 * matches / length\<close> when \<^verbatim>\<open>length\<close> is not 0, and
  \<^verbatim>\<open>1.0\<close> otherwise; \<^verbatim>\<open>ratio\<close> sums the sizes of the matching blocks.
\<close>

definition calculate_ratio :: "nat \<Rightarrow> nat \<Rightarrow> pyfloat" where
  "calculate_ratio matches len =
     (if len \<noteq> 0
      then fdiv (fmul 2 (float_of_int (int matches))) (float_of_int (int len))
      else 1)"

definition ratio :: "ustr \<Rightarrow> ustr \<Rightarrow> pyfloat" where
  "ratio a b =
     (let matches = sum_list (map (\<lambda>(i, j, k). k) (get_matching_blocks a b))
      in calculate_ratio matches (length a + length b))"

section \<open>Records\<close>

text \<open>
  A record of the store is what \<^verbatim>\<open>json.loads\<close> returns for a line of the log: any
  JSON value. A dictionary is an association list read with \<^const>\<open>map_of\<close>. The
  operations on records raise where the Python raises on a value of the wrong type.
\<close>

datatype json =
    JNull
  | JBool bool
  | JInt int
  | JFloat rat
  | JStr ustr
  | JList "json list"
  | JDict "(ustr \<times> json) list"

datatype error = AttributeError | TypeError | KeyError | StorageFailed | ReadError

definition ebind :: "error + 'a \<Rightarrow> ('a \<Rightarrow> error + 'b) \<Rightarrow> error + 'b" where
  "ebind m f = (case m of Inl e \<Rightarrow> Inl e | Inr x \<Rightarrow> f x)"

text \<open>Mapping a function that can raise over a list, left to right.\<close>

fun emap :: "('a \<Rightarrow> error + 'b) \<Rightarrow> 'a list \<Rightarrow> error + 'b list" where
  "emap f [] = Inr []"
| "emap f (x # xs) = ebind (f x) (\<lambda>y. ebind (emap f xs) (\<lambda>ys. Inr (y # ys)))"

definition key_id :: ustr where
  "key_id = [105, 100]"

definition key_timestamp :: ustr where
  "key_timestamp = [116, 105, 109, 101, 115, 116, 97, 109, 112]"

definition key_title :: ustr where
  "key_title = [116, 105, 116, 108, 101]"

definition key_content :: ustr where
  "key_content = [99, 111, 110, 116, 101, 110, 116]"

definition key_tags :: ustr where
  "key_tags = [116, 97, 103, 115]"

text \<open>\<^verbatim>\<open>record.get(key, default)\<close>: only a dictionary has the method.\<close>

definition dict_get :: "json \<Rightarrow> ustr \<Rightarrow> json \<Rightarrow> error + json" where
  "dict_get record key dflt =
     (case record of
        JDict kvs \<Rightarrow> Inr (case map_of kvs key of None \<Rightarrow> dflt | Some v \<Rightarrow> v)
      | _ \<Rightarrow> Inl AttributeError)"

text \<open>\<^verbatim>\<open>record[key]\<close> on a dictionary.\<close>

definition dict_item :: "(ustr \<times> json) list \<Rightarrow> ustr \<Rightarrow> error + json" where
  "dict_item kvs key = (case map_of kvs key of None \<Rightarrow> Inl KeyError | Some v \<Rightarrow> Inr v)"

text \<open>\<^verbatim>\<open>x.lower()\<close>: only a string has the method.\<close>

definition str_lower :: "(ustr \<Rightarrow> ustr) \<Rightarrow> json \<Rightarrow> error + ustr" where
  "str_lower lower x = (case x of JStr s \<Rightarrow> Inr (lower s) | _ \<Rightarrow> Inl AttributeError)"

text \<open>Iterating over a value: the elements of a list, the characters of a string, the
  keys of a dictionary.\<close>

definition iter :: "json \<Rightarrow> error + json list" where
  "iter x =
     (case x of
        JList xs \<Rightarrow> Inr xs
      | JStr s \<Rightarrow> Inr (map (\<lambda>c. JStr [c]) s)
      | JDict kvs \<Rightarrow> Inr (map (\<lambda>kv. JStr (fst kv)) kvs)
      | _ \<Rightarrow> Inl TypeError)"

text \<open>\<^verbatim>\<open>" ".join(x)\<close>: every element must be a string.\<close>

definition join_json :: "ustr \<Rightarrow> json \<Rightarrow> error + ustr" where
  "join_json sep x =
     ebind (iter x) (\<lambda>xs.
     ebind (emap (\<lambda>e. case e of JStr s \<Rightarrow> Inr s | _ \<Rightarrow> Inl TypeError) xs) (\<lambda>parts.
     Inr (join sep parts)))"

section \<open>Search: score and snippet\<close>

text \<open>
  The loop of \<^verbatim>\<open>_calculate_score\<close> over the query words, with the running score.
\<close>

fun word_boost :: "ustr \<Rightarrow> ustr \<Rightarrow> ustr \<Rightarrow> ustr list \<Rightarrow> pyfloat \<Rightarrow> pyfloat" where
  "word_boost title content tags [] score = score"
| "word_boost title content tags (word # query_words) score =
     word_boost title content tags query_words
       (if length word > 2
        then (let score1 = (if sublist word title then fadd score (float_of_int 10) else score);
                  score2 = (if sublist word content then fadd score1 (float_of_int 5) else score1)
              in if sublist word tags then fadd score2 (float_of_int 15) else score2)
        else score)"

definition calculate_score :: "(ustr \<Rightarrow> ustr) \<Rightarrow> json \<Rightarrow> ustr \<Rightarrow> error + pyfloat" where
  "calculate_score lower record query =
     ebind (ebind (dict_get record key_title (JStr [])) (str_lower lower)) (\<lambda>title.
     ebind (ebind (dict_get record key_content (JStr [])) (str_lower lower)) (\<lambda>content.
     ebind (ebind (dict_get record key_tags (JList [])) (join_json [32])) (\<lambda>joined.
       (let tags = lower joined;
            score = 0;
            score = (if sublist query title then fadd score (float_of_int 100) else score);
            score = (if sublist query content then fadd score (float_of_int 50) else score);
            score = (if sublist query tags then fadd score (float_of_int 75) else score);
            title_similarity = ratio query title;
            content_similarity = ratio query content;
            score = fadd score (fmul title_similarity (float_of_int 30));
            score = fadd score (fmul content_similarity (float_of_int 20))
        in Inr (word_boost title content tags (split_ws query) score)))))"

text \<open>The loop of \<^verbatim>\<open>_generate_snippet\<close> over the query words, left at the first word
  longer than 2 that is found.\<close>

fun word_pos :: "ustr \<Rightarrow> ustr list \<Rightarrow> int \<Rightarrow> int" where
  "word_pos content_lower [] best_pos = best_pos"
| "word_pos content_lower (word # query_words) best_pos =
     (if length word > 2
      then (let pos = find_str content_lower word
            in if pos \<noteq> -1 then pos else word_pos content_lower query_words best_pos)
      else word_pos content_lower query_words best_pos)"

definition generate_snippet :: "(ustr \<Rightarrow> ustr) \<Rightarrow> ustr \<Rightarrow> ustr \<Rightarrow> int \<Rightarrow> ustr" where
  "generate_snippet lower content query max_length =
     (let content_lower = lower content;
          query_words = split_ws query;
          pos = find_str content_lower query;
          best_pos = (if pos \<noteq> -1 then pos else word_pos content_lower query_words (-1))
      in if best_pos = -1 then strip (slice content 0 max_length)
         else
           (let start = max 0 (best_pos - max_length div 3);
                end = start + max_length;
                snippet = slice content start end;
                snippet = (if start > 0 then ellipsis @ snippet else snippet);
                snippet = (if end < int (length content) then snippet @ ellipsis else snippet)
            in strip snippet))"

section \<open>Title and tags\<close>

definition delimiters :: "ustr list" where
  "delimiters = [[12290], [46], [63], [65311], [33], [65281]]"

text \<open>The loop of \<^verbatim>\<open>_generate_title\<close> over the delimiters, left at the first one found
  at a position above 10.\<close>

fun title_loop :: "ustr \<Rightarrow> ustr \<Rightarrow> ustr list \<Rightarrow> ustr" where
  "title_loop content title [] = title"
| "title_loop content title (delimiter # ds) =
     (let pos = find_str title delimiter
      in if pos > 10 then slice content 0 (pos + 1) else title_loop content title ds)"

definition generate_title :: "ustr \<Rightarrow> ustr" where
  "generate_title content =
     (let title = title_loop content (strip (slice content 0 50)) delimiters
      in if length content > length title then title @ ellipsis else title)"

definition tag_keywords :: "(ustr \<times> ustr list) list" where
  "tag_keywords =
    [([25216, 26415], [[25216, 26415], [32534, 31243], [20195, 30721], [97, 112, 105],
                       [31639, 27861], [25968, 25454], [24320, 21457]]),
     ([24037, 20316], [[24037, 20316], [39033, 30446], [20250, 35758], [20219, 21153],
                       [35745, 21010], [100, 101, 97, 100, 108, 105, 110, 101]]),
     ([23398, 20064], [[23398, 20064], [25945, 31243], [31508, 35760], [30693, 35782],
                       [25991, 26723], [35838, 31243]]),
     ([24819, 27861], [[24819, 27861], [24605, 32771], [35266, 28857], [24863, 24735],
                       [24515, 24471], [21453, 24605]]),
     ([29983, 27963], [[29983, 27963], [26085, 24120], [20010, 20154], [20581, 24247],
                       [20241, 38386], [23089, 20048]])]"

definition auto_suggest_tags :: "(ustr \<Rightarrow> ustr) \<Rightarrow> ustr \<Rightarrow> ustr \<Rightarrow> ustr list" where
  "auto_suggest_tags lower content title =
     (let text = lower (title @ [32] @ content);
          suggested = map fst (filter (\<lambda>(tag, keywords). list_ex (\<lambda>keyword. sublist keyword text) keywords)
                                      tag_keywords)
      in take 3 suggested)"

section \<open>The log and the store\<close>

text \<open>
  The log is a text file read line by line. A line is represented by what
  \<^verbatim>\<open>get_all_records\<close> finds in it: nothing but whitespace (\<open>Blank\<close>), a text on which
  \<^verbatim>\<open>json.loads\<close> raises \<^verbatim>\<open>JSONDecodeError\<close> (\<open>Malformed\<close>), a text that
  \<^verbatim>\<open>json.loads\<close> turns into a value (\<open>Valid\<close>), or a line on which reading raises
  another exception (\<open>Failing\<close>): bytes that are not UTF-8, an integer literal beyond
  the digit limit of the interpreter, nesting beyond its recursion limit. A record
  written by \<^verbatim>\<open>json.dumps\<close> and a newline is one line that loads as the same record.

  The text after the last newline of the file is its tail. The tail is \<open>Complete\<close>
  when it is empty or whitespace only. Otherwise it is \<open>Partial l raises\<close>: an
  unfinished last line that reads as \<open>l\<close> now. Text appended to the file continues
  that line; a record written behind a tail that is not blank does not load as a
  value any more (the record is a complete JSON object, so what precedes it is left
  unclosed or is followed by extra data), and \<open>raises\<close> says whether the joined line
  is \<open>Failing\<close> or \<open>Malformed\<close>.

  The file is \<open>None\<close> when it does not exist; when it exists it can be opened and
  locked for reading.
\<close>

datatype line = Blank | Malformed | Failing | Valid json

datatype tail = Complete | Partial line bool

type_synonym log = "(line list \<times> tail) option"

text \<open>The lines that iterating over the file yields.\<close>

definition file_lines :: "line list \<times> tail \<Rightarrow> line list" where
  "file_lines c = (case c of (ls, t) \<Rightarrow> ls @ (case t of Complete \<Rightarrow> [] | Partial l raises \<Rightarrow> [l]))"

text \<open>The loop of \<^verbatim>\<open>get_all_records\<close> over the lines, with the list \<^verbatim>\<open>records\<close>. Only
  \<^verbatim>\<open>JSONDecodeError\<close> is caught in the loop, and only \<^verbatim>\<open>FileNotFoundError\<close> around it.\<close>

fun read_lines :: "line list \<Rightarrow> json list \<Rightarrow> error + json list" where
  "read_lines [] records = Inr records"
| "read_lines (Blank # ls) records = read_lines ls records"
| "read_lines (Malformed # ls) records = read_lines ls records"
| "read_lines (Failing # ls) records = Inl ReadError"
| "read_lines (Valid record # ls) records = read_lines ls (records @ [record])"

definition get_all_records :: "log \<Rightarrow> error + json list" where
  "get_all_records file = (case file of None \<Rightarrow> Inr [] | Some c \<Rightarrow> read_lines (file_lines c) [])"

fun find_by_id :: "json list \<Rightarrow> ustr \<Rightarrow> error + json option" where
  "find_by_id [] record_id = Inr None"
| "find_by_id (record # rest) record_id =
     ebind (dict_get record key_id JNull) (\<lambda>v.
       if v = JStr record_id then Inr (Some record) else find_by_id rest record_id)"

definition get_by_id :: "log \<Rightarrow> ustr \<Rightarrow> error + json option" where
  "get_by_id file record_id =
     ebind (get_all_records file) (\<lambda>records. find_by_id records record_id)"

text \<open>
  Opening the file in mode \<^verbatim>\<open>"a"\<close> creates it when it is missing; the write adds the
  text of the record and a newline at the end of the file. Whether an attempt raises
  is decided outside the program: \<open>attempt_ok i\<close> says that attempt \<open>i\<close> goes through.
  An attempt that raises is taken to leave the file as it was.
\<close>

definition write_line :: "log \<Rightarrow> json \<Rightarrow> log" where
  "write_line file record =
     (case file of
        None \<Rightarrow> Some ([Valid record], Complete)
      | Some (ls, t) \<Rightarrow>
          (case t of
             Complete \<Rightarrow> Some (ls @ [Valid record], Complete)
           | Partial l raises \<Rightarrow>
               if l = Blank then Some (ls @ [Valid record], Complete)
               else Some (ls @ [if raises then Failing else Malformed], Complete)))"

fun append_loop :: "(nat \<Rightarrow> bool) \<Rightarrow> json \<Rightarrow> log \<Rightarrow> nat \<Rightarrow> nat list \<Rightarrow> bool \<times> log" where
  "append_loop attempt_ok record file max_retries [] = (False, file)"
| "append_loop attempt_ok record file max_retries (i # is) =
     (if attempt_ok i then (True, write_line file record)
      else if i = max_retries - 1 then (False, file)
      else append_loop attempt_ok record file max_retries is)"

definition safe_append_record :: "(nat \<Rightarrow> bool) \<Rightarrow> json \<Rightarrow> log \<Rightarrow> bool \<times> log" where
  "safe_append_record attempt_ok record file =
     (let max_retries = 3 in append_loop attempt_ok record file max_retries [0..<max_retries])"

record summary =
  s_id :: ustr
  s_title :: ustr
  s_tags :: "ustr list"

text \<open>
  \<^verbatim>\<open>store\<close>. The identifier (\<^verbatim>\<open>uuid4\<close>) and the time stamp (\<^verbatim>\<open>datetime.now\<close>) come
  from outside: \<open>new_id\<close> and \<open>now\<close>. \<^verbatim>\<open>list(set(...))\<close> removes duplicates and leaves
  the order to the interpreter; \<^const>\<open>remdups\<close> is one such order, and the statements
  below speak of the tags as a set only.
\<close>

definition store ::
  "(ustr \<Rightarrow> ustr) \<Rightarrow> ustr \<Rightarrow> ustr \<Rightarrow> (nat \<Rightarrow> bool) \<Rightarrow> log \<Rightarrow>
   ustr \<Rightarrow> ustr \<Rightarrow> ustr \<Rightarrow> bool \<Rightarrow> (error + summary) \<times> log" where
  "store lower new_id now attempt_ok file content title tags auto_tag =
     (let record_id = new_id;
          timestamp = now;
          manual_tags = filter (\<lambda>tag. tag \<noteq> []) (map strip (split_on 44 tags));
          suggested_tags = (if auto_tag then auto_suggest_tags lower content title else []);
          all_tags = remdups (manual_tags @ suggested_tags);
          title = (if strip title = [] then generate_title content else title);
          record = JDict [(key_id, JStr record_id), (key_timestamp, JStr timestamp),
                          (key_title, JStr (strip title)), (key_content, JStr (strip content)),
                          (key_tags, JList (map JStr all_tags))]
      in (case safe_append_record attempt_ok record file of (success, file') \<Rightarrow>
            if \<not> success then (Inl StorageFailed, file')
            else (Inr \<lparr>s_id = record_id, s_title = title, s_tags = all_tags\<rparr>, file')))"

section \<open>Search\<close>

fun efilter :: "('a \<Rightarrow> error + bool) \<Rightarrow> 'a list \<Rightarrow> error + 'a list" where
  "efilter p [] = Inr []"
| "efilter p (x # xs) =
     ebind (p x) (\<lambda>keep. ebind (efilter p xs) (\<lambda>ys. Inr (if keep then x # ys else ys)))"

text \<open>The tag filter of \<^verbatim>\<open>search\<close>: applied when \<^verbatim>\<open>tag_filter\<close> is not the empty string.\<close>

definition filter_by_tags :: "(ustr \<Rightarrow> ustr) \<Rightarrow> json list \<Rightarrow> ustr \<Rightarrow> error + json list" where
  "filter_by_tags lower all_records tag_filter =
     (if tag_filter \<noteq> [] then
        (let filter_tags = map (\<lambda>tag. lower (strip tag)) (split_on 44 tag_filter)
         in efilter (\<lambda>record.
              ebind (ebind (dict_get record key_tags (JList [])) iter) (\<lambda>tags.
              ebind (emap (str_lower lower) tags) (\<lambda>record_tags.
              Inr (list_ex (\<lambda>ftag. ftag \<in> set record_tags) filter_tags)))) all_records)
      else Inr all_records)"

text \<open>The scoring loop, with the list \<^verbatim>\<open>scored_results\<close>.\<close>

fun score_records ::
  "(ustr \<Rightarrow> ustr) \<Rightarrow> ustr \<Rightarrow> json list \<Rightarrow> (pyfloat \<times> json) list \<Rightarrow>
   error + (pyfloat \<times> json) list" where
  "score_records lower query_lower [] scored_results = Inr scored_results"
| "score_records lower query_lower (record # rest) scored_results =
     ebind (calculate_score lower record query_lower) (\<lambda>score.
       score_records lower query_lower rest
         (if score > 0 then scored_results @ [(score, record)] else scored_results))"

record result_item =
  r_id :: json
  r_title :: json
  r_snippet :: ustr
  r_tags :: json
  r_timestamp :: json
  r_score :: pyfloat

record search_result =
  sr_query :: ustr
  sr_total :: nat
  sr_results :: "result_item list"

text \<open>One round of the formatting loop. \<^verbatim>\<open>record[key]\<close> raises \<^verbatim>\<open>KeyError\<close> on a missing
  key; the snippet lower-cases the content, which must be a string.\<close>

definition format_result :: "(ustr \<Rightarrow> ustr) \<Rightarrow> ustr \<Rightarrow> pyfloat \<times> json \<Rightarrow> error + result_item" where
  "format_result lower query_lower sr =
     (case sr of (score, record) \<Rightarrow>
       (case record of
          JDict kvs \<Rightarrow>
            ebind (dict_item kvs key_content) (\<lambda>content.
            ebind (case content of
                     JStr c \<Rightarrow> Inr (generate_snippet lower c query_lower 150)
                   | _ \<Rightarrow> Inl AttributeError) (\<lambda>snippet.
            ebind (dict_item kvs key_id) (\<lambda>rid.
            ebind (dict_item kvs key_title) (\<lambda>title.
            ebind (dict_get record key_tags (JList [])) (\<lambda>tags.
            ebind (dict_item kvs key_timestamp) (\<lambda>timestamp.
              Inr \<lparr>r_id = rid, r_title = title, r_snippet = snippet, r_tags = tags,
                   r_timestamp = timestamp, r_score = score\<rparr>))))))
        | _ \<Rightarrow> Inl TypeError))"

text \<open>
  \<^verbatim>\<open>scored_results.sort(key=lambda x: x[0], reverse=True)\<close>: Python's sort is stable, and
  with \<^verbatim>\<open>reverse=True\<close> elements with equal keys keep their original order. This is
  the stable insertion sort \<^const>\<open>sort_key\<close> on the negated score.
\<close>

definition sort_by_score :: "(pyfloat \<times> json) list \<Rightarrow> (pyfloat \<times> json) list" where
  "sort_by_score scored_results = sort_key (\<lambda>x. - fst x) scored_results"

definition search ::
  "(ustr \<Rightarrow> ustr) \<Rightarrow> log \<Rightarrow> ustr \<Rightarrow> int \<Rightarrow> ustr \<Rightarrow> error + search_result" where
  "search lower file query limit tag_filter =
     ebind (get_all_records file) (\<lambda>all_records.
     ebind (filter_by_tags lower all_records tag_filter) (\<lambda>all_records.
       (let query_lower = lower query
        in ebind (score_records lower query_lower all_records []) (\<lambda>scored_results.
           (let scored_results = sort_by_score scored_results
            in ebind (emap (format_result lower query_lower) (slice scored_results 0 limit))
                 (\<lambda>results.
                    Inr \<lparr>sr_query = query, sr_total = length scored_results,
                         sr_results = results\<rparr>))))))"

section \<open>Evaluation and the error monad\<close>

text \<open>The equations that evaluate the functions above on concrete arguments.\<close>

lemmas eval_defs = Let_def ascii_lower_def b2j_def isbjunk_def find_longest_match_def
  extend_left.simps extend_right.simps matching_loop.simps get_matching_blocks_def
  calculate_ratio_def ratio_def key_id_def key_timestamp_def key_title_def key_content_def
  key_tags_def dict_get_def dict_item_def str_lower_def iter_def join_json_def
  calculate_score_def generate_snippet_def slice_def slice_index_def ellipsis_def strip_def
  lstrip_def rstrip_def isspace_def sublist_code prefix_code split_ws.simps
  file_lines_def get_all_records_def get_by_id_def write_line_def safe_append_record_def
  store_def filter_by_tags_def format_result_def sort_by_score_def search_def
  generate_title_def delimiters_def auto_suggest_tags_def tag_keywords_def

text \<open>Floor and ceiling of a quotient of numerals, by integer division.\<close>

lemma floor_numeral_divide:
  "\<lfloor>(numeral a :: rat) / numeral b\<rfloor> = numeral a div numeral b"
  by (metis floor_divide_of_int_eq of_int_numeral)

lemma ceiling_numeral_divide:
  "\<lceil>(numeral a :: rat) / numeral b\<rceil> = - (- numeral a div numeral b)"
  unfolding ceiling_def
  by (metis floor_divide_of_int_eq minus_divide_left of_int_minus of_int_numeral)

text \<open>
  Rounding is evaluated on numbers only: the equations below unfold \<^const>\<open>double\<close> at
  0, 1, a numeral and a quotient of such numbers.
\<close>

lemma double_0: "double 0 = 0"
  by (simp add: double_def)

lemma double_1:
  "double 1 =
     (let e = max (binade 1) (- 1022)
      in of_int (round_half_even (1 / pow2 (e - 52))) * pow2 (e - 52))"
  by (simp add: double_def)

lemma double_numeral:
  "double (numeral a) =
     (let e = max (binade (numeral a)) (- 1022)
      in of_int (round_half_even (numeral a / pow2 (e - 52))) * pow2 (e - 52))"
  by (simp add: double_def)

lemma double_numeral_divide:
  "double (numeral a / numeral b) =
     (let e = max (binade (numeral a / numeral b)) (- 1022)
      in of_int (round_half_even (numeral a / numeral b / pow2 (e - 52))) * pow2 (e - 52))"
  by (simp add: double_def)

lemma double_one_divide:
  "double (1 / numeral b) =
     (let e = max (binade (1 / numeral b)) (- 1022)
      in of_int (round_half_even (1 / numeral b / pow2 (e - 52))) * pow2 (e - 52))"
  by (simp add: double_def)

lemmas float_defs = double_0 double_1 double_numeral double_numeral_divide double_one_divide
  binade_def
  bit_length.simps pow2_def round_half_even_def float_of_int_def fadd_def fmul_def fdiv_def
  floor_numeral_divide ceiling_numeral_divide

lemma ebind_eq_Inr: "ebind m f = Inr y \<longleftrightarrow> (\<exists>x. m = Inr x \<and> f x = Inr y)"
  by (cases m) (simp_all add: ebind_def)

lemma ebind_Inr [simp]: "ebind (Inr x) f = f x"
  by (simp add: ebind_def)

lemma ebind_Inl [simp]: "ebind (Inl e) f = Inl e"
  by (simp add: ebind_def)

section \<open>Facts about the log and the search\<close>

text \<open>The values of the lines that load, in the order of the lines.\<close>

definition valid_values :: "line list \<Rightarrow> json list" where
  "valid_values ls = concat (map (\<lambda>l. case l of Valid v \<Rightarrow> [v] | _ \<Rightarrow> []) ls)"

lemma emap_eq_Inr: "emap f xs = Inr ys \<Longrightarrow> list_all2 (\<lambda>x y. f x = Inr y) xs ys"
  by (induction xs arbitrary: ys) (auto simp: ebind_eq_Inr)

lemma read_lines_eq:
  "read_lines ls acc = (if Failing \<in> set ls then Inl ReadError else Inr (acc @ valid_values ls))"
proof (induction ls arbitrary: acc)
  case Nil
  show ?case by (simp add: valid_values_def)
next
  case (Cons l ls)
  show ?case
    by (cases l) (simp_all add: Cons.IH valid_values_def)
qed

lemma get_all_records_eq:
  "get_all_records file =
     (case file of None \<Rightarrow> Inr []
      | Some c \<Rightarrow> if Failing \<in> set (file_lines c) then Inl ReadError
                  else Inr (valid_values (file_lines c)))"
  by (simp add: get_all_records_def read_lines_eq split: option.splits)

lemma efilter_subseq: "efilter p xs = Inr ys \<Longrightarrow> subseq ys xs"
proof (induction xs arbitrary: ys)
  case Nil
  then show ?case by simp
next
  case (Cons x xs)
  from Cons.prems obtain keep zs where "p x = Inr keep" and zs: "efilter p xs = Inr zs"
    and ys: "ys = (if keep then x # zs else zs)"
    by (auto simp: ebind_eq_Inr)
  from Cons.IH [OF zs] ys show ?case by auto
qed

lemma filter_by_tags_subseq:
  "filter_by_tags lower records tag_filter = Inr post \<Longrightarrow> subseq post records"
  by (auto simp: filter_by_tags_def Let_def efilter_subseq split: if_splits)

lemma score_records_eq:
  "score_records lower q rs acc = Inr scored \<Longrightarrow>
   \<exists>scores. emap (\<lambda>r. calculate_score lower r q) rs = Inr scores \<and>
            scored = acc @ filter (\<lambda>x. 0 < fst x) (zip scores rs)"
proof (induction rs arbitrary: acc)
  case Nil
  then show ?case by simp
next
  case (Cons r rs)
  from Cons.prems obtain score where sc: "calculate_score lower r q = Inr score"
    and rest: "score_records lower q rs (if score > 0 then acc @ [(score, r)] else acc) = Inr scored"
    by (auto simp: ebind_eq_Inr)
  from Cons.IH [OF rest] obtain scores where
    e: "emap (\<lambda>r. calculate_score lower r q) rs = Inr scores" and
    s: "scored = (if score > 0 then acc @ [(score, r)] else acc) @ filter (\<lambda>x. 0 < fst x) (zip scores rs)"
    by blast
  show ?case
    by (rule exI [of _ "score # scores"]) (simp add: sc e s)
qed

lemma slice_0:
  "slice xs 0 limit = take (if limit < 0 then length xs - nat (- limit) else nat limit) xs"
  by (auto simp: slice_def slice_index_def Let_def min_def max_def nat_diff_distrib'
           intro: arg_cong [where f = "\<lambda>n. take n xs"])

lemma sort_by_score_mset: "mset (sort_by_score xs) = mset xs"
  by (simp add: sort_by_score_def)

lemma sort_by_score_sorted: "sorted_wrt (\<lambda>x y. fst y \<le> fst x) (sort_by_score xs)"
proof -
  have "sorted (map (\<lambda>x. - fst x) (sort_by_score xs))"
    by (simp add: sort_by_score_def)
  then show ?thesis
    by (simp add: sorted_map sorted_wrt_iff_nth_less)
qed

lemma sort_by_score_stable:
  "filter (\<lambda>x. fst x = k) (sort_by_score xs) = filter (\<lambda>x. fst x = k) xs"
proof -
  have "filter (\<lambda>x. - fst x = - k) (sort_key (\<lambda>x. - fst x) xs) = filter (\<lambda>x. - fst x = - k) xs"
    by (rule sort_key_stable)
  then show ?thesis by (simp add: sort_by_score_def)
qed

lemma format_result_score: "format_result lower q x = Inr item \<Longrightarrow> r_score item = fst x"
proof -
  assume a: "format_result lower q x = Inr item"
  obtain score rcd where x: "x = (score, rcd)" by (cases x) auto
  from a x obtain kvs where kvs: "rcd = JDict kvs"
    by (cases rcd) (auto simp: format_result_def)
  from a x kvs obtain content where "dict_item kvs key_content = Inr content"
    by (auto simp: format_result_def ebind_eq_Inr)
  with a x kvs show ?thesis
    by (cases content) (auto simp: format_result_def ebind_eq_Inr)
qed

lemma emap_format_result_scores:
  "emap (format_result lower q) xs = Inr items \<Longrightarrow> map r_score items = map fst xs"
proof -
  assume "emap (format_result lower q) xs = Inr items"
  then have "list_all2 (\<lambda>x y. format_result lower q x = Inr y) xs items"
    by (rule emap_eq_Inr)
  then have "list_all2 (\<lambda>x y. r_score y = fst x) xs items"
    by (rule list_all2_mono) (simp add: format_result_score)
  then show ?thesis
    by (induction rule: list_all2_induct) auto
qed

section \<open>C6: equal scores keep the order of the store\<close>

text \<open>
  A log of five records between a line that does not parse, a blank line and an
  unfinished last line. For the query \<^verbatim>\<open>AB\<close> the first and the third record score
  \<^verbatim>\<open>76.66666666666666\<close>, the second and the fourth \<^verbatim>\<open>76.66666666666667\<close> (all four
  are \<open>230 / 3\<close> before rounding), and the fifth scores 0.
\<close>

definition tie_record :: "nat \<Rightarrow> ustr \<Rightarrow> ustr \<Rightarrow> json" where
  "tie_record i title content =
     JDict [(key_id, JStr [i]), (key_timestamp, JStr [116]), (key_title, JStr title),
            (key_content, JStr content), (key_tags, JList [])]"

definition tie_log :: log where
  "tie_log =
     Some ([Valid (tie_record 49 [97, 122, 122, 122, 122, 122, 122] [97, 98]),
            Malformed,
            Valid (tie_record 50 [97] [97, 98, 121, 121, 121, 121, 121, 121, 121, 121]),
            Blank,
            Valid (tie_record 51 [97, 122, 122, 122, 122, 122, 122] [97, 98]),
            Valid (tie_record 52 [97] [97, 98, 121, 121, 121, 121, 121, 121, 121, 121]),
            Valid (tie_record 53 [113] [113])],
           Partial Malformed False)"

lemma tie_log_search:
  "search ascii_lower tie_log [65, 66] 3 [] =
     Inr \<lparr>sr_query = [65, 66], sr_total = 4,
          sr_results =
            [\<lparr>r_id = JStr [50], r_title = JStr [97],
              r_snippet = [97, 98, 121, 121, 121, 121, 121, 121, 121, 121], r_tags = JList [],
              r_timestamp = JStr [116], r_score = 5394937053620907 / 70368744177664\<rparr>,
             \<lparr>r_id = JStr [52], r_title = JStr [97],
              r_snippet = [97, 98, 121, 121, 121, 121, 121, 121, 121, 121], r_tags = JList [],
              r_timestamp = JStr [116], r_score = 5394937053620907 / 70368744177664\<rparr>,
             \<lparr>r_id = JStr [49], r_title = JStr [97, 122, 122, 122, 122, 122, 122],
              r_snippet = [97, 98], r_tags = JList [],
              r_timestamp = JStr [116], r_score = 2697468526810453 / 35184372088832\<rparr>]\<rparr>"
  by (simp add: eval_defs float_defs tie_log_def tie_record_def)

text \<open>
  C6. When \<^verbatim>\<open>search\<close> returns, the log was read as \<open>records\<close>, the values of its lines
  that load, in the order of the lines (store order, oldest first); the tag filter
  kept the subsequence \<open>post\<close> of them; \<open>scored\<close> pairs the records of \<open>post\<close> whose
  score is positive with their score, in the order of \<open>post\<close>. The results are the
  formatted first entries (as many as \<open>limit\<close> asks for) of the list \<open>s\<close> that has
  the entries of \<open>scored\<close>, each as often as \<open>scored\<close> has it, in descending order of
  score, and in which the entries of any one score stand exactly as they stand in
  \<open>scored\<close>: records of equal score keep the order of the post-filter sequence, and
  nothing but the score decides the order of the others.
\<close>

theorem search_ties_in_store_order:
  assumes "search lower file query limit tag_filter = Inr res"
  shows "\<exists>records post scores scored s.
           get_all_records file = Inr records \<and>
           (\<forall>c. file = Some c \<longrightarrow> records = valid_values (file_lines c)) \<and>
           filter_by_tags lower records tag_filter = Inr post \<and>
           subseq post records \<and>
           emap (\<lambda>r. calculate_score lower r (lower query)) post = Inr scores \<and>
           scored = filter (\<lambda>x. 0 < fst x) (zip scores post) \<and>
           mset s = mset scored \<and>
           sorted_wrt (\<lambda>x y. fst y \<le> fst x) s \<and>
           (\<forall>k. filter (\<lambda>x. fst x = k) s = filter (\<lambda>x. fst x = k) scored) \<and>
           sr_total res = length scored \<and>
           emap (format_result lower (lower query))
             (take (if limit < 0 then length s - nat (- limit) else nat limit) s)
             = Inr (sr_results res) \<and>
           map r_score (sr_results res)
             = map fst (take (if limit < 0 then length s - nat (- limit) else nat limit) s)"
proof -
  from assms obtain records post scored results where
    recs: "get_all_records file = Inr records" and
    post: "filter_by_tags lower records tag_filter = Inr post" and
    scored: "score_records lower (lower query) post [] = Inr scored" and
    fmt: "emap (format_result lower (lower query)) (slice (sort_by_score scored) 0 limit) = Inr results" and
    res: "res = \<lparr>sr_query = query, sr_total = length (sort_by_score scored), sr_results = results\<rparr>"
    by (auto simp: search_def Let_def ebind_eq_Inr)
  define s where "s = sort_by_score scored"
  from score_records_eq [OF scored] obtain scores where
    scores: "emap (\<lambda>r. calculate_score lower r (lower query)) post = Inr scores" and
    sc: "scored = filter (\<lambda>x. 0 < fst x) (zip scores post)"
    by auto
  have vals: "\<forall>c. file = Some c \<longrightarrow> records = valid_values (file_lines c)"
    using recs by (auto simp: get_all_records_eq split: if_splits)
  have len: "length s = length scored"
    unfolding s_def by (metis sort_by_score_mset size_mset)
  have fmt': "emap (format_result lower (lower query))
                (take (if limit < 0 then length s - nat (- limit) else nat limit) s) = Inr results"
    using fmt unfolding s_def slice_0 .
  show ?thesis
  proof (intro exI conjI)
    show "get_all_records file = Inr records" by (rule recs)
    show "\<forall>c. file = Some c \<longrightarrow> records = valid_values (file_lines c)" by (rule vals)
    show "filter_by_tags lower records tag_filter = Inr post" by (rule post)
    show "subseq post records" using post by (rule filter_by_tags_subseq)
    show "emap (\<lambda>r. calculate_score lower r (lower query)) post = Inr scores" by (rule scores)
    show "scored = filter (\<lambda>x. 0 < fst x) (zip scores post)" by (rule sc)
    show "mset s = mset scored" unfolding s_def by (rule sort_by_score_mset)
    show "sorted_wrt (\<lambda>x y. fst y \<le> fst x) s" unfolding s_def by (rule sort_by_score_sorted)
    show "\<forall>k. filter (\<lambda>x. fst x = k) s = filter (\<lambda>x. fst x = k) scored"
      unfolding s_def by (simp add: sort_by_score_stable)
    show "sr_total res = length scored" using res len by (simp add: s_def)
    show "emap (format_result lower (lower query))
            (take (if limit < 0 then length s - nat (- limit) else nat limit) s) = Inr (sr_results res)"
      using fmt' res by simp
    show "map r_score (sr_results res)
            = map fst (take (if limit < 0 then length s - nat (- limit) else nat limit) s)"
      using emap_format_result_scores [OF fmt'] res by simp
  qed
qed

theorem search_ties_in_store_order_witness:
  "\<exists>res. search ascii_lower tie_log [65, 66] 3 [] = Inr res \<and>
         map r_id (sr_results res) = [JStr [50], JStr [52], JStr [49]] \<and>
         map r_score (sr_results res) =
           [5394937053620907 / 70368744177664, 5394937053620907 / 70368744177664,
            2697468526810453 / 35184372088832] \<and>
         sr_total res = 4 \<and>
         (\<exists>records post scores scored s.
           get_all_records tie_log = Inr records \<and>
           (\<forall>c. tie_log = Some c \<longrightarrow> records = valid_values (file_lines c)) \<and>
           filter_by_tags ascii_lower records [] = Inr post \<and>
           subseq post records \<and>
           emap (\<lambda>r. calculate_score ascii_lower r (ascii_lower [65, 66])) post = Inr scores \<and>
           scored = filter (\<lambda>x. 0 < fst x) (zip scores post) \<and>
           mset s = mset scored \<and>
           sorted_wrt (\<lambda>x y. fst y \<le> fst x) s \<and>
           (\<forall>k. filter (\<lambda>x. fst x = k) s = filter (\<lambda>x. fst x = k) scored) \<and>
           sr_total res = length scored \<and>
           emap (format_result ascii_lower (ascii_lower [65, 66]))
             (take (if (3::int) < 0 then length s - nat (- 3) else nat 3) s)
             = Inr (sr_results res) \<and>
           map r_score (sr_results res)
             = map fst (take (if (3::int) < 0 then length s - nat (- 3) else nat 3) s))"
proof -
  obtain res where h: "search ascii_lower tie_log [65, 66] 3 [] = Inr res"
    and ids: "map r_id (sr_results res) = [JStr [50], JStr [52], JStr [49]]"
    and scores: "map r_score (sr_results res) =
           [5394937053620907 / 70368744177664, 5394937053620907 / 70368744177664,
            2697468526810453 / 35184372088832]"
    and total: "sr_total res = 4"
    by (simp add: tie_log_search)
  show ?thesis
    using search_ties_in_store_order [OF h] ids scores total
    by (intro exI [of _ res] conjI h) assumption+
qed

section \<open>C8: reading a log with damaged lines\<close>

text \<open>
  The shape of a Record in the data model: an object with the strings \<^verbatim>\<open>id\<close>,
  \<^verbatim>\<open>timestamp\<close>, \<^verbatim>\<open>title\<close> and \<^verbatim>\<open>content\<close> and a list of strings \<^verbatim>\<open>tags\<close>.
\<close>

definition is_valid :: "line \<Rightarrow> bool" where
  "is_valid l = (case l of Valid v \<Rightarrow> True | _ \<Rightarrow> False)"

definition is_record :: "json \<Rightarrow> bool" where
  "is_record r =
     (case r of
        JDict kvs \<Rightarrow>
          (case (map_of kvs key_id, map_of kvs key_timestamp, map_of kvs key_title,
                 map_of kvs key_content, map_of kvs key_tags) of
             (Some (JStr i), Some (JStr ts), Some (JStr t), Some (JStr c), Some (JList tags)) \<Rightarrow>
               list_all (\<lambda>tag. case tag of JStr s \<Rightarrow> True | _ \<Rightarrow> False) tags
           | _ \<Rightarrow> False)
      | _ \<Rightarrow> False)"

lemma valid_values_append: "valid_values (xs @ ys) = valid_values xs @ valid_values ys"
  by (simp add: valid_values_def)

lemma valid_values_length: "length (valid_values ls) = length (filter is_valid ls)"
proof (induction ls)
  case Nil
  show ?case by (simp add: valid_values_def)
next
  case (Cons l ls)
  then show ?case
    by (cases l) (simp_all add: valid_values_def is_valid_def)
qed

lemma file_lines_append: "file_lines (xs @ ys, t) = xs @ file_lines (ys, t)"
  by (simp add: file_lines_def)

lemma file_lines_Cons: "file_lines (l # ys, t) = l # file_lines (ys, t)"
  by (simp add: file_lines_def)

text \<open>
  C8, as stated, fails: \<^verbatim>\<open>get_all_records\<close> does not look at the shape of what a line
  loads as. A log whose only line is \<^verbatim>\<open>42\<close> holds no Record, and the read returns
  one value.
\<close>

theorem get_all_records_not_only_records:
  "get_all_records (Some ([Valid (JInt 42)], Complete)) = Inr [JInt 42] \<and> \<not> is_record (JInt 42)"
  by (simp add: get_all_records_def file_lines_def is_record_def)

text \<open>
  C8, amended. On a log none of whose lines makes the read raise,
  \<^verbatim>\<open>get_all_records\<close> returns the values of the lines that load as JSON, in the order
  of the lines, whatever their shape, as many as there are such lines; a line that is
  blank or is not JSON, put anywhere among them, changes nothing; a missing file
  gives the empty list.
\<close>

theorem get_all_records_valid_lines:
  assumes "Failing \<notin> set (file_lines (xs @ ys, t))" and "l = Malformed \<or> l = Blank"
  shows "get_all_records None = Inr [] \<and>
         get_all_records (Some (xs @ ys, t)) = Inr (valid_values (file_lines (xs @ ys, t))) \<and>
         length (valid_values (file_lines (xs @ ys, t))) =
           length (filter is_valid (file_lines (xs @ ys, t))) \<and>
         get_all_records (Some (xs @ l # ys, t)) = get_all_records (Some (xs @ ys, t))"
proof -
  have l: "l \<noteq> Failing" "valid_values (l # zs) = valid_values zs" for zs
    using assms(2) by (auto simp: valid_values_def)
  have nf: "Failing \<notin> set (file_lines (xs @ l # ys, t))"
    using assms(1) l(1) by (simp add: file_lines_append file_lines_Cons)
  have "valid_values (file_lines (xs @ l # ys, t)) = valid_values (file_lines (xs @ ys, t))"
    by (simp add: file_lines_append file_lines_Cons valid_values_append l(2))
  then show ?thesis
    using assms(1) nf by (simp add: get_all_records_eq valid_values_length)
qed

theorem get_all_records_valid_lines_witness:
  "Failing \<notin> set (file_lines ([Valid (JInt 42)] @ [Valid (JStr [97])], Partial (Valid JNull) False)) \<and>
   get_all_records (Some ([Valid (JInt 42)] @ [Valid (JStr [97])], Partial (Valid JNull) False)) =
     Inr [JInt 42, JStr [97], JNull] \<and>
   get_all_records (Some ([Valid (JInt 42)] @ Malformed # [Valid (JStr [97])], Partial (Valid JNull) False)) =
     Inr [JInt 42, JStr [97], JNull] \<and>
   length (filter is_valid (file_lines ([Valid (JInt 42)] @ [Valid (JStr [97])], Partial (Valid JNull) False))) = 3"
  using get_all_records_valid_lines [of "[Valid (JInt 42)]" "[Valid (JStr [97])]"
      "Partial (Valid JNull) False" Malformed]
  by (simp add: file_lines_def valid_values_def is_valid_def)

section \<open>Facts about the store\<close>





















section \<open>C2: storing, then looking up\<close>




section \<open>C3: the log only grows\<close>




end
